theory Spec2Isabelle
  imports Main
begin

section \<open>IMAP dumper: the export and delete pipeline of \<open>dump_imap.py\<close>\<close>

text \<open>
  Text is a list of Unicode code points (Python's \<open>str\<close>), a byte string a list of
  numbers below 256 (Python's \<open>bytes\<close>). Exceptions are values of \<open>error\<close>;
  \<open>Raised n\<close> stands for an exception of a library or of the transport.
\<close>

type_synonym ustr = "nat list"
type_synonym bytes = "nat list"

definition py_str :: "string \<Rightarrow> ustr" where
  "py_str s = map of_char s"

datatype error =
    FileNotFoundError | NotADirectoryError | OSError | ConnectionError
  | IndexError | AttributeError | TypeError
  | UnicodeEncodeError | UnicodeDecodeError | RecursionError
  | Raised nat

definition is_scalar :: "nat \<Rightarrow> bool" where
  "is_scalar cp \<longleftrightarrow> cp < 0xD800 \<or> (0xE000 \<le> cp \<and> cp < 0x110000)"

definition utf8_char :: "nat \<Rightarrow> bytes" where
  "utf8_char cp =
     (if cp < 0x80 then [cp]
      else if cp < 0x800 then [0xC0 + cp div 64, 0x80 + cp mod 64]
      else if cp < 0x10000 then
        [0xE0 + cp div 4096, 0x80 + (cp div 64) mod 64, 0x80 + cp mod 64]
      else
        [0xF0 + cp div 262144, 0x80 + (cp div 4096) mod 64,
         0x80 + (cp div 64) mod 64, 0x80 + cp mod 64])"

definition utf8_encode :: "ustr \<Rightarrow> error + bytes" where
  "utf8_encode s =
     (if list_all is_scalar s then Inr (concat (map utf8_char s))
      else Inl UnicodeEncodeError)"

definition utf8_seq_len :: "nat \<Rightarrow> nat" where
  "utf8_seq_len b =
     (if b < 0x80 then 1
      else if 0xC0 \<le> b \<and> b < 0xE0 then 2
      else if 0xE0 \<le> b \<and> b < 0xF0 then 3
      else if 0xF0 \<le> b \<and> b < 0xF8 then 4
      else 0)"

fun utf8_assemble :: "bytes \<Rightarrow> nat" where
  "utf8_assemble [b0] = b0"
| "utf8_assemble [b0, b1] = (b0 - 0xC0) * 64 + (b1 - 0x80)"
| "utf8_assemble [b0, b1, b2] = (b0 - 0xE0) * 4096 + (b1 - 0x80) * 64 + (b2 - 0x80)"
| "utf8_assemble [b0, b1, b2, b3] =
     (b0 - 0xF0) * 262144 + (b1 - 0x80) * 4096 + (b2 - 0x80) * 64 + (b3 - 0x80)"
| "utf8_assemble _ = 0"

function utf8_decode :: "bytes \<Rightarrow> ustr option" where
  "utf8_decode [] = Some []"
| "utf8_decode (b # bs) =
     (let n = utf8_seq_len b;
          chunk = take n (b # bs);
          cp = utf8_assemble chunk
      in if n = 0 \<or> length chunk < n \<or> \<not> is_scalar cp \<or> utf8_char cp \<noteq> chunk
         then None
         else map_option ((#) cp) (utf8_decode (drop n (b # bs))))"
  by pat_completeness auto
termination
  by (relation "measure length") auto

definition py_slice_to :: "'a list \<Rightarrow> int \<Rightarrow> 'a list" where
  "py_slice_to xs n =
     (if 0 \<le> n then take (nat n) xs
      else take (length xs - nat (- n)) xs)"

function trim_loop :: "bytes \<Rightarrow> ustr" where
  "trim_loop filename_bytes =
     (case utf8_decode filename_bytes of
        Some filename \<Rightarrow> filename
      | None \<Rightarrow> trim_loop (butlast filename_bytes))"
  by pat_completeness auto
termination
proof (relation "measure length")
  show "wf (measure length)" by simp
next
  fix filename_bytes :: bytes
  assume "utf8_decode filename_bytes = None"
  then have "filename_bytes \<noteq> []" by auto
  then show "(butlast filename_bytes, filename_bytes) \<in> measure length" by simp
qed

declare trim_loop.simps [simp del]

definition trim_file_name ::
  "(ustr \<Rightarrow> error + int) \<Rightarrow> ustr \<Rightarrow> ustr \<Rightarrow> ustr \<Rightarrow> error + ustr" where
  "trim_file_name pathconf filename file_ext output_dir =
     (case pathconf output_dir of
        Inl e \<Rightarrow> Inl e
      | Inr max_length \<Rightarrow>
          (case utf8_encode filename of
             Inl e \<Rightarrow> Inl e
           | Inr filename_bytes \<Rightarrow>
               (case utf8_encode file_ext of
                  Inl e \<Rightarrow> Inl e
                | Inr ext_bytes \<Rightarrow>
                    (let max_main_bytes = max_length - int (length ext_bytes) - 1 in
                     if int (length filename_bytes) > max_main_bytes
                     then Inr (trim_loop (py_slice_to filename_bytes max_main_bytes))
                     else Inr filename))))"

subsection \<open>Python string helpers used by \<open>process\<close>\<close>

text \<open>\<open>str(n)\<close> for a non-negative integer: its decimal digits.\<close>

fun str_of_nat :: "nat \<Rightarrow> ustr" where
  "str_of_nat n = (if n < 10 then [48 + n] else str_of_nat (n div 10) @ [48 + n mod 10])"

declare str_of_nat.simps [simp del]

text \<open>\<open>str.isspace\<close> on one code point, and \<open>str.strip()\<close>.\<close>

definition py_isspace :: "nat \<Rightarrow> bool" where
  "py_isspace c \<longleftrightarrow>
     (9 \<le> c \<and> c \<le> 13) \<or> (28 \<le> c \<and> c \<le> 32) \<or> c = 0x85 \<or> c = 0xA0 \<or> c = 0x1680
     \<or> (0x2000 \<le> c \<and> c \<le> 0x200A) \<or> c = 0x2028 \<or> c = 0x2029 \<or> c = 0x202F
     \<or> c = 0x205F \<or> c = 0x3000"

definition py_strip :: "ustr \<Rightarrow> ustr" where
  "py_strip s = rev (dropWhile py_isspace (rev (dropWhile py_isspace s)))"

text \<open>\<open>bytes.split()\<close>: split on runs of ASCII whitespace, no empty tokens.\<close>

definition is_ascii_space :: "nat \<Rightarrow> bool" where
  "is_ascii_space b \<longleftrightarrow> b = 32 \<or> (9 \<le> b \<and> b \<le> 13)"

fun split_ws :: "bytes \<Rightarrow> bytes \<Rightarrow> bytes list" where
  "split_ws cur [] = (if cur = [] then [] else [cur])"
| "split_ws cur (b # bs) =
     (if is_ascii_space b
      then (if cur = [] then split_ws [] bs else cur # split_ws [] bs)
      else split_ws (cur @ [b]) bs)"

definition bytes_split :: "bytes \<Rightarrow> bytes list" where
  "bytes_split data = split_ws [] data"

text \<open>\<open>os.path.join(a, b)\<close> of posixpath, for two components.\<close>

definition path_join :: "ustr \<Rightarrow> ustr \<Rightarrow> ustr" where
  "path_join a b =
     (if b \<noteq> [] \<and> hd b = 0x2F then b
      else if a = [] \<or> last a = 0x2F then a @ b
      else a @ [0x2F] @ b)"

subsection \<open>The world: session, file system and the log of effects\<close>

datatype event =
    EvSearch
  | EvLocalFolderCheck ustr bool
  | EvFetch bytes "error + string \<times> bytes option"
  | EvMakeDirs ustr
  | EvOpen ustr
  | EvWrite ustr bytes
  | EvFetchUid bytes
  | EvUidCopy ustr ustr "error + string"
  | EvUidStore ustr
  | EvExpunge
  | EvSelect ustr
  | EvClose

record 's world =
  session :: 's
  dirs :: "ustr set"
  files :: "ustr \<rightharpoonup> bytes"
  trace :: "event list"

definition log :: "event \<Rightarrow> 's world \<Rightarrow> 's world" where
  "log ev w = w\<lparr>trace := trace w @ [ev]\<rparr>"

text \<open>The command-line arguments the core reads (the global \<open>args\<close>).\<close>

record args =
  local_folder :: ustr
  delete_remote :: "ustr option"
  trash_folder :: ustr

text \<open>
  The IMAP connection \<open>mail\<close> is an external collaborator: an arbitrary state machine
  over a session state \<open>'s\<close>. Every call may raise (\<open>Inl\<close>) or return its response.
  A fetch response is the status \<open>rv\<close> and the payload that the source reads from
  \<open>data\<close>: \<open>data[0][1]\<close> for the message fetch, \<open>data[0]\<close> for the UID fetch, \<open>None\<close>
  when that object is not a byte string.
\<close>

record 's mail =
  mail_search :: "'s \<Rightarrow> (error + string \<times> bytes) \<times> 's"
  mail_fetch_rfc822 :: "bytes \<Rightarrow> 's \<Rightarrow> (error + string \<times> bytes option) \<times> 's"
  mail_fetch_uid :: "bytes \<Rightarrow> 's \<Rightarrow> (error + string \<times> bytes option) \<times> 's"
  mail_uid_copy :: "ustr \<Rightarrow> ustr \<Rightarrow> 's \<Rightarrow> (error + string) \<times> 's"
  mail_uid_store :: "ustr \<Rightarrow> 's \<Rightarrow> (error + unit) \<times> 's"
  mail_expunge :: "'s \<Rightarrow> (error + unit) \<times> 's"
  mail_select :: "ustr \<Rightarrow> 's \<Rightarrow> (error + string) \<times> 's"
  mail_close :: "'s \<Rightarrow> (error + unit) \<times> 's"

text \<open>
  What \<open>msg[name]\<close> returns for a header that is present: a text, or an
  \<open>email.header.Header\<close> object when the raw header holds bytes that are not ASCII.
\<close>

datatype header_value = Text ustr | HeaderObject

text \<open>
  A parsed message, as far as \<open>process\<close> reads it: three headers, each absent
  (\<open>None\<close>) or a header value.
\<close>

record message =
  hdr_subject :: "header_value option"
  hdr_date :: "header_value option"
  hdr_message_id :: "header_value option"

text \<open>
  The libraries the core calls (\<open>email\<close>, \<open>datetime\<close>, \<open>re\<close>, \<open>os\<close>) and the
  interpreter are parameters:
  \<open>decode_header_text\<close> is \<open>str(make_header(decode_header(v)))\<close> on a header value,
  \<open>parsedate_tz\<close> is \<open>email.utils.parsedate_tz\<close> on a header value, \<open>format_local\<close>
  is \<open>datetime.fromtimestamp(mktime_tz(t)).strftime('%Y-%m-%d %H:%M:%S')\<close>,
  \<open>pattern_uid_match\<close> is \<open>PATTERN_UID.match(s)\<close> followed by \<open>group('uid')\<close> when it
  matches, \<open>pathconf_name_max\<close> is \<open>os.pathconf(d, 'PC_NAME_MAX')\<close>; \<open>makedirs_error\<close>
  and \<open>open_error\<close> say when \<open>os.makedirs\<close> and \<open>open(p, 'wb')\<close> raise;
  \<open>write_error p b\<close> says when writing \<open>b\<close> to the open file \<open>p\<close> (or closing it)
  raises, and how many bytes of \<open>b\<close> have reached the file by then;
  \<open>recursion_room\<close> is the number of nested activations of \<open>delete\<close> that the
  interpreter's recursion limit leaves room for at the call in \<open>process\<close>.
\<close>

record 'd libs =
  message_from_bytes :: "bytes \<Rightarrow> error + message"
  message_from_string :: "bytes \<Rightarrow> error + message"
  decode_header_text :: "header_value \<Rightarrow> error + ustr"
  parsedate_tz :: "header_value \<Rightarrow> error + 'd option"
  format_local :: "'d \<Rightarrow> error + ustr"
  pattern_uid_match :: "ustr \<Rightarrow> ustr option"
  abspath :: "ustr \<Rightarrow> ustr"
  pathconf_name_max :: "ustr \<Rightarrow> error + int"
  makedirs_error :: "ustr \<Rightarrow> error option"
  open_error :: "ustr \<Rightarrow> error option"
  write_error :: "ustr \<Rightarrow> bytes \<Rightarrow> (error \<times> nat) option"
  recursion_room :: nat

subsection \<open>Calls on the session, each logged when issued\<close>

definition call_search :: "'s mail \<Rightarrow> 's world \<Rightarrow> (error + string \<times> bytes) \<times> 's world" where
  "call_search mail w =
     (case mail_search mail (session w) of
        (r, s') \<Rightarrow> (r, log EvSearch (w\<lparr>session := s'\<rparr>)))"

definition fetch_message ::
  "'s mail \<Rightarrow> bytes \<Rightarrow> 's world \<Rightarrow> (error + string \<times> bytes option) \<times> 's world" where
  "fetch_message mail num w =
     (case mail_fetch_rfc822 mail num (session w) of
        (r, s') \<Rightarrow> (r, log (EvFetch num r) (w\<lparr>session := s'\<rparr>)))"

definition fetch_uid ::
  "'s mail \<Rightarrow> bytes \<Rightarrow> 's world \<Rightarrow> (error + string \<times> bytes option) \<times> 's world" where
  "fetch_uid mail num w =
     (case mail_fetch_uid mail num (session w) of
        (r, s') \<Rightarrow> (r, log (EvFetchUid num) (w\<lparr>session := s'\<rparr>)))"

definition call_uid_copy ::
  "'s mail \<Rightarrow> ustr \<Rightarrow> ustr \<Rightarrow> 's world \<Rightarrow> (error + string) \<times> 's world" where
  "call_uid_copy mail msg_uid target w =
     (case mail_uid_copy mail msg_uid target (session w) of
        (r, s') \<Rightarrow> (r, log (EvUidCopy msg_uid target r) (w\<lparr>session := s'\<rparr>)))"

definition call_uid_store :: "'s mail \<Rightarrow> ustr \<Rightarrow> 's world \<Rightarrow> (error + unit) \<times> 's world" where
  "call_uid_store mail msg_uid w =
     (case mail_uid_store mail msg_uid (session w) of
        (r, s') \<Rightarrow> (r, log (EvUidStore msg_uid) (w\<lparr>session := s'\<rparr>)))"

definition call_expunge :: "'s mail \<Rightarrow> 's world \<Rightarrow> (error + unit) \<times> 's world" where
  "call_expunge mail w =
     (case mail_expunge mail (session w) of
        (r, s') \<Rightarrow> (r, log EvExpunge (w\<lparr>session := s'\<rparr>)))"



subsection \<open>\<open>parse_uid\<close> and \<open>delete\<close>\<close>

definition parse_uid :: "'d libs \<Rightarrow> ustr \<Rightarrow> error + ustr" where
  "parse_uid lib data =
     (case pattern_uid_match lib data of
        None \<Rightarrow> Inl AttributeError
      | Some uid \<Rightarrow> Inr uid)"

text \<open>\<open>data[0].decode()\<close>: no such method on \<open>None\<close>; strict UTF-8 otherwise.\<close>

definition decode_data :: "bytes option \<Rightarrow> error + ustr" where
  "decode_data d =
     (case d of
        None \<Rightarrow> Inl AttributeError
      | Some bs \<Rightarrow> (case utf8_decode bs of None \<Rightarrow> Inl UnicodeDecodeError | Some s \<Rightarrow> Inr s))"

text \<open>
  One pass through the \<open>try\<close> block of \<open>delete\<close> (lines 172 to 183): \<open>Inl\<close> is the
  exception that reaches the bare \<open>except\<close>, \<open>Inr ()\<close> is falling off the end of the block.
  Console output is not modelled.
\<close>

definition delete_attempt ::
  "args \<Rightarrow> 'd libs \<Rightarrow> 's mail \<Rightarrow> bytes \<Rightarrow> 's world \<Rightarrow> (error + unit) \<times> 's world" where
  "delete_attempt a lib mail num w =
     (case fetch_uid mail num w of
        (Inl e, w1) \<Rightarrow> (Inl e, w1)
      | (Inr (rv, data), w1) \<Rightarrow>
          (case decode_data data of
             Inl e \<Rightarrow> (Inl e, w1)
           | Inr text \<Rightarrow>
               (case parse_uid lib text of
                  Inl e \<Rightarrow> (Inl e, w1)
                | Inr msg_uid \<Rightarrow>
                    (case call_uid_copy mail msg_uid (trash_folder a) w1 of
                       (Inl e, w2) \<Rightarrow> (Inl e, w2)
                     | (Inr status, w2) \<Rightarrow>
                         if status = ''OK'' then
                           (case call_uid_store mail msg_uid w2 of
                              (Inl e, w3) \<Rightarrow> (Inl e, w3)
                            | (Inr u, w3) \<Rightarrow>
                                (case call_expunge mail w3 of
                                   (Inl e, w4) \<Rightarrow> (Inl e, w4)
                                 | (Inr u', w4) \<Rightarrow> (Inr (), w4)))
                         else (Inr (), w2)))))"

text \<open>
  \<open>delete\<close>: the \<open>except\<close> branch calls \<open>delete\<close> again with the same arguments,
  so every retry is one more nested activation. The source sets no bound; the interpreter
  does: the call that would exceed its recursion limit raises \<open>RecursionError\<close>, and as
  that call stands in the \<open>except\<close> clause, outside the \<open>try\<close>, the error leaves every
  activation. \<open>depth\<close> is the number of activations the limit still allows.
\<close>

fun delete ::
  "nat \<Rightarrow> args \<Rightarrow> 'd libs \<Rightarrow> 's mail \<Rightarrow> bytes \<Rightarrow> 's world \<Rightarrow> (error + unit) \<times> 's world" where
  "delete 0 a lib mail num w = (Inl RecursionError, w)"
| "delete (Suc depth) a lib mail num w =
     (case delete_attempt a lib mail num w of
        (Inl e, w') \<Rightarrow> delete depth a lib mail num w'
      | (Inr u, w') \<Rightarrow> (Inr u, w'))"

subsection \<open>\<open>process\<close>\<close>

text \<open>
  Lines 111 to 129: the values of \<open>subject\<close>, \<open>date\<close> and \<open>message_id\<close> after the
  \<open>try\<close> block. \<open>decode_header\<close> raises on an absent header (\<open>None\<close>);
  \<open>parsedate_tz\<close> returns \<open>None\<close> on one. Any exception leaves the variables as
  they were assigned so far.
\<close>

definition decode_subject :: "'d libs \<Rightarrow> message \<Rightarrow> error + ustr" where
  "decode_subject lib msg =
     (case hdr_subject msg of
        None \<Rightarrow> Inl TypeError
      | Some v \<Rightarrow> decode_header_text lib v)"

definition parse_date :: "'d libs \<Rightarrow> message \<Rightarrow> error + 'd option" where
  "parse_date lib msg =
     (case hdr_date msg of
        None \<Rightarrow> Inr None
      | Some v \<Rightarrow> parsedate_tz lib v)"

definition extract_metadata ::
  "'d libs \<Rightarrow> message \<Rightarrow> ustr option \<times> ustr \<times> header_value option" where
  "extract_metadata lib msg =
     (let subject = Some (py_str ''No subject'');
          date = [];
          message_id = Some (Text [])
      in case decode_subject lib msg of
           Inl e \<Rightarrow> (subject, date, message_id)
         | Inr header \<Rightarrow>
             (let subject = Some header in
              case parse_date lib msg of
                Inl e \<Rightarrow> (subject, date, message_id)
              | Inr None \<Rightarrow> (subject, date, hdr_message_id msg)
              | Inr (Some date_tuple) \<Rightarrow>
                  (case format_local lib date_tuple of
                     Inl e \<Rightarrow> (subject, date, message_id)
                   | Inr stamp \<Rightarrow> (subject, stamp @ py_str '' - '', hdr_message_id msg))))"

text \<open>Lines 132 to 138: the fallbacks. \<open>not message_id\<close> holds for \<open>None\<close> and for \<open>''\<close>.\<close>

definition fallback_subject :: "ustr option \<Rightarrow> ustr" where
  "fallback_subject subject = (case subject of None \<Rightarrow> py_str ''No Subject'' | Some s \<Rightarrow> s)"

definition fallback_date :: "ustr \<Rightarrow> ustr" where
  "fallback_date date = (if date = [] then py_str ''Unknown Date'' else date)"

definition lacks_message_id :: "header_value option \<Rightarrow> bool" where
  "lacks_message_id message_id \<longleftrightarrow> message_id = None \<or> message_id = Some (Text [])"

definition resolve_message_id :: "nat \<Rightarrow> header_value option \<Rightarrow> nat \<times> header_value" where
  "resolve_message_id counter message_id =
     (case message_id of
        None \<Rightarrow> (counter + 1, Text (str_of_nat (counter + 1)))
      | Some v \<Rightarrow>
          if v = Text [] then (counter + 1, Text (str_of_nat (counter + 1))) else (counter, v))"

text \<open>
  Lines 142 to 146: sanitising and composing the file name. \<open>re.sub\<close> raises
  \<open>TypeError\<close> on a \<open>Header\<close> object; line 144 is outside the \<open>try\<close> block.
\<close>

definition sanitize_subject :: "ustr \<Rightarrow> ustr" where
  "sanitize_subject subject =
     py_strip (map (\<lambda>c. if c = 0x2F then 0x2D else c)
                 (filter (\<lambda>c. c \<noteq> 0x0A \<and> c \<noteq> 0x0D \<and> c \<noteq> 0x22) subject))"

definition sanitize_message_id :: "header_value \<Rightarrow> error + ustr" where
  "sanitize_message_id message_id =
     (case message_id of
        Text s \<Rightarrow>
          Inr (filter (\<lambda>c. c \<noteq> 0x3C \<and> c \<noteq> 0x3E \<and> c \<noteq> 0x24 \<and> c \<noteq> 0x5C \<and> c \<noteq> 0x2F) s)
      | HeaderObject \<Rightarrow> Inl TypeError)"

definition compose_file :: "ustr \<Rightarrow> header_value \<Rightarrow> ustr \<Rightarrow> error + ustr" where
  "compose_file date message_id subject =
     (let subject = sanitize_subject subject in
      case sanitize_message_id message_id of
        Inl e \<Rightarrow> Inl e
      | Inr message_id \<Rightarrow> Inr (date @ message_id @ py_str '' - '' @ subject))"

definition FILENAME_EXT :: ustr where
  "FILENAME_EXT = py_str ''eml''"

text \<open>Lines 105 to 108: parsing, with the fallback to \<open>message_from_string\<close>.\<close>

definition parse_message :: "'d libs \<Rightarrow> bytes \<Rightarrow> error + message" where
  "parse_message lib raw =
     (case message_from_bytes lib raw of
        Inl e \<Rightarrow> message_from_string lib raw
      | Inr msg \<Rightarrow> Inr msg)"

text \<open>
  Lines 110 to 146: from the parsed message and the current value of
  \<open>unknown_message_id_counter\<close> to the counter's new value and the composed \<open>file\<close>.
\<close>

definition compose_name :: "'d libs \<Rightarrow> message \<Rightarrow> nat \<Rightarrow> error + nat \<times> ustr" where
  "compose_name lib msg counter =
     (case extract_metadata lib msg of
        (subject0, date0, message_id0) \<Rightarrow>
          (let subject = fallback_subject subject0;
               date = fallback_date date0
           in case resolve_message_id counter message_id0 of
                (counter', message_id) \<Rightarrow>
                  (case compose_file date message_id subject of
                     Inl e \<Rightarrow> Inl e
                   | Inr file \<Rightarrow> Inr (counter', file))))"

text \<open>Lines 150 and 151: the folder's directory is created when it is not there.\<close>

definition ensure_dir :: "'d libs \<Rightarrow> ustr \<Rightarrow> 's world \<Rightarrow> (error + unit) \<times> 's world" where
  "ensure_dir lib final_dir w =
     (if final_dir \<in> dirs w then (Inr (), w)
      else (case makedirs_error lib final_dir of
              Some e \<Rightarrow> (Inl e, log (EvMakeDirs final_dir) w)
            | None \<Rightarrow>
                (Inr (), log (EvMakeDirs final_dir) (w\<lparr>dirs := insert final_dir (dirs w)\<rparr>))))"

text \<open>
  Lines 158 and 159: \<open>open(target, 'wb')\<close> creates the file or empties it; then the
  bytes are handed to \<open>f.write\<close> and the file is closed. When the write raises, a part
  of the bytes may have reached the file.
\<close>

definition write_file ::
  "'d libs \<Rightarrow> ustr \<Rightarrow> bytes \<Rightarrow> 's world \<Rightarrow> (error + unit) \<times> 's world" where
  "write_file lib target raw w =
     (case open_error lib target of
        Some e \<Rightarrow> (Inl e, w)
      | None \<Rightarrow>
          (let w1 = log (EvWrite target raw)
                      (log (EvOpen target) (w\<lparr>files := (files w)(target \<mapsto> [])\<rparr>))
           in case write_error lib target raw of
                Some (e, n) \<Rightarrow> (Inl e, w1\<lparr>files := (files w1)(target \<mapsto> take n raw)\<rparr>)
              | None \<Rightarrow> (Inr (), w1\<lparr>files := (files w1)(target \<mapsto> raw)\<rparr>)))"

text \<open>The directory and the path of the export file (lines 149 and 158).\<close>

definition final_dir_of :: "args \<Rightarrow> 'd libs \<Rightarrow> ustr \<Rightarrow> ustr" where
  "final_dir_of a lib folder =
     path_join (abspath lib (local_folder a)) (filter (\<lambda>c. c \<noteq> 0x22) folder)"

definition target_of :: "ustr \<Rightarrow> ustr \<Rightarrow> ustr" where
  "target_of final_dir file = final_dir @ [0x2F] @ file @ [0x2E] @ FILENAME_EXT"

text \<open>
  Lines 99 to 162: the body of the loop up to the write, for the message token \<open>num\<close>
  and the current value of \<open>unknown_message_id_counter\<close>; the result is the counter's
  new value.
\<close>

definition export_message ::
  "args \<Rightarrow> 'd libs \<Rightarrow> 's mail \<Rightarrow> ustr \<Rightarrow> bytes \<Rightarrow> nat \<Rightarrow> 's world \<Rightarrow> (error + nat) \<times> 's world" where
  "export_message a lib mail folder num counter w =
     (case fetch_message mail num w of
        (Inl e, w1) \<Rightarrow> (Inl e, w1)
      | (Inr (rv, payload), w1) \<Rightarrow>
          if rv \<noteq> ''OK'' then (Inl OSError, w1)
          else
            (case payload of
               None \<Rightarrow> (Inl TypeError, w1)
             | Some raw \<Rightarrow>
                 (case parse_message lib raw of
                    Inl e \<Rightarrow> (Inl e, w1)
                  | Inr msg \<Rightarrow>
                      (case compose_name lib msg counter of
                         Inl e \<Rightarrow> (Inl e, w1)
                       | Inr (counter', file) \<Rightarrow>
                           (let final_dir = final_dir_of a lib folder
                            in case ensure_dir lib final_dir w1 of
                                 (Inl e, w2) \<Rightarrow> (Inl e, w2)
                               | (Inr u, w2) \<Rightarrow>
                                   (case trim_file_name (pathconf_name_max lib) file
                                           FILENAME_EXT final_dir of
                                      Inl e \<Rightarrow> (Inl e, w2)
                                    | Inr file' \<Rightarrow>
                                        (case write_file lib (target_of final_dir file')
                                                raw w2 of
                                           (Inl e, w3) \<Rightarrow> (Inl e, w3)
                                         | (Inr u', w3) \<Rightarrow> (Inr counter', w3))))))))"

text \<open>
  Lines 164 and 165 after the body: the optional \<open>delete\<close>. Its return value is
  dropped; a \<open>RecursionError\<close> that leaves it goes on to the caller.
\<close>

definition process_message ::
  "args \<Rightarrow> 'd libs \<Rightarrow> 's mail \<Rightarrow> ustr \<Rightarrow> bytes \<Rightarrow> nat \<Rightarrow> 's world
     \<Rightarrow> (error + nat) \<times> 's world" where
  "process_message a lib mail folder num counter w =
     (case export_message a lib mail folder num counter w of
        (Inl e, w1) \<Rightarrow> (Inl e, w1)
      | (Inr counter', w1) \<Rightarrow>
          if delete_remote a \<noteq> None then
            (case delete (recursion_room lib) a lib mail num w1 of
               (Inl e, w2) \<Rightarrow> (Inl e, w2)
             | (Inr u, w2) \<Rightarrow> (Inr counter', w2))
          else (Inr counter', w1))"

text \<open>The \<open>for\<close> loop of lines 98 to 165; the result is the counter at the end.\<close>

fun process_loop ::
  "args \<Rightarrow> 'd libs \<Rightarrow> 's mail \<Rightarrow> ustr \<Rightarrow> bytes list \<Rightarrow> nat \<Rightarrow> 's world
     \<Rightarrow> (error + nat) \<times> 's world" where
  "process_loop a lib mail folder [] counter w = (Inr counter, w)"
| "process_loop a lib mail folder (num # nums) counter w =
     (case process_message a lib mail folder num counter w of
        (Inl e, w1) \<Rightarrow> (Inl e, w1)
      | (Inr counter', w1) \<Rightarrow> process_loop a lib mail folder nums counter' w1)"

text \<open>A Python return value: \<open>process\<close> has no \<open>return\<close> statement, so it returns \<open>None\<close>.\<close>

datatype py_value = PyNone | PyInt int

definition process ::
  "args \<Rightarrow> 'd libs \<Rightarrow> 's mail \<Rightarrow> ustr \<Rightarrow> 's world \<Rightarrow> (error + py_value) \<times> 's world" where
  "process a lib mail folder w =
     (case call_search mail w of
        (Inl e, w1) \<Rightarrow> (Inl e, w1)
      | (Inr (rv, data0), w1) \<Rightarrow>
          if rv \<noteq> ''OK'' then (Inl FileNotFoundError, w1)
          else
            (let w2 = log (EvLocalFolderCheck (local_folder a) (local_folder a \<in> dirs w1)) w1 in
             if local_folder a \<notin> dirs w1 then (Inl NotADirectoryError, w2)
             else
               (case process_loop a lib mail folder (bytes_split data0) 0 w2 of
                  (Inl e, w3) \<Rightarrow> (Inl e, w3)
                | (Inr counter, w3) \<Rightarrow> (Inr PyNone, w3))))"

subsection \<open>The folder loop of \<open>main\<close>\<close>


subsection \<open>Reading the log\<close>

text \<open>The number of attempts of the delete sequence: each starts with one UID fetch.\<close>

fun attempts :: "event list \<Rightarrow> nat" where
  "attempts [] = 0"
| "attempts (EvFetchUid num # tr) = Suc (attempts tr)"
| "attempts (ev # tr) = attempts tr"

fun written :: "event list \<Rightarrow> (ustr \<times> bytes) list" where
  "written [] = []"
| "written (EvWrite target raw # tr) = (target, raw) # written tr"
| "written (ev # tr) = written tr"

fun local_checks :: "event list \<Rightarrow> (ustr \<times> bool) list" where
  "local_checks [] = []"
| "local_checks (EvLocalFolderCheck d ok # tr) = (d, ok) # local_checks tr"
| "local_checks (ev # tr) = local_checks tr"

fun is_delete_event :: "event \<Rightarrow> bool" where
  "is_delete_event (EvFetchUid num) = True"
| "is_delete_event (EvUidCopy msg_uid target r) = True"
| "is_delete_event (EvUidStore msg_uid) = True"
| "is_delete_event EvExpunge = True"
| "is_delete_event ev = False"

subsection \<open>An example run: the scenario of two messages in \<open>INBOX\<close>\<close>

text \<open>
  The session state is the number of calls made so far. The example interpreter leaves
  room for three nested activations of \<open>delete\<close>. Message \<open>1\<close> has the subject
  \<open>Test\<close>, a date and the identifier \<open><a1>\<close>; message \<open>2\<close> has no headers at all.
\<close>

definition example_mail :: "nat mail" where
  "example_mail =
     \<lparr> mail_search = (\<lambda>s. (Inr (''OK'', py_str ''1 2''), Suc s)),
       mail_fetch_rfc822 = (\<lambda>num s. (Inr (''OK'', Some (0x4D # num)), Suc s)),
       mail_fetch_uid = (\<lambda>num s. (Inl (Raised 1), Suc s)),
       mail_uid_copy = (\<lambda>msg_uid target s. (Inr ''NO'', Suc s)),
       mail_uid_store = (\<lambda>msg_uid s. (Inr (), Suc s)),
       mail_expunge = (\<lambda>s. (Inr (), Suc s)),
       mail_select = (\<lambda>folder s. (Inr ''OK'', Suc s)),
       mail_close = (\<lambda>s. (Inr (), Suc s)) \<rparr>"

text \<open>A session whose folders hold no message.\<close>

definition empty_mail :: "nat mail" where
  "empty_mail =
     \<lparr> mail_search = (\<lambda>s. (Inr (''OK'', []), Suc s)),
       mail_fetch_rfc822 = (\<lambda>num s. (Inr (''NO'', None), Suc s)),
       mail_fetch_uid = (\<lambda>num s. (Inl (Raised 1), Suc s)),
       mail_uid_copy = (\<lambda>msg_uid target s. (Inr ''NO'', Suc s)),
       mail_uid_store = (\<lambda>msg_uid s. (Inr (), Suc s)),
       mail_expunge = (\<lambda>s. (Inr (), Suc s)),
       mail_select = (\<lambda>folder s. (Inr ''OK'', Suc s)),
       mail_close = (\<lambda>s. (Inr (), Suc s)) \<rparr>"

text \<open>
  A session whose UID fetch raises until two calls have been made and answers after that;
  copy, store and expunge succeed.
\<close>

definition retry_mail :: "nat mail" where
  "retry_mail =
     \<lparr> mail_search = (\<lambda>s. (Inr (''OK'', py_str ''1''), Suc s)),
       mail_fetch_rfc822 = (\<lambda>num s. (Inr (''OK'', Some (0x4D # num)), Suc s)),
       mail_fetch_uid = (\<lambda>num s.
         if s < 2 then (Inl (Raised 1), Suc s)
         else (Inr (''OK'', Some (py_str ''1 (UID 7)'')), Suc s)),
       mail_uid_copy = (\<lambda>msg_uid target s. (Inr ''OK'', Suc s)),
       mail_uid_store = (\<lambda>msg_uid s. (Inr (), Suc s)),
       mail_expunge = (\<lambda>s. (Inr (), Suc s)),
       mail_select = (\<lambda>folder s. (Inr ''OK'', Suc s)),
       mail_close = (\<lambda>s. (Inr (), Suc s)) \<rparr>"

definition example_libs :: "nat libs" where
  "example_libs =
     \<lparr> message_from_bytes = (\<lambda>raw.
         if raw = 0x4D # py_str ''1''
         then Inr \<lparr> hdr_subject = Some (Text (py_str ''Test'')),
                    hdr_date = Some (Text (py_str ''Mon, 01 Jan 2024 10:00:00 +0000'')),
                    hdr_message_id = Some (Text (py_str ''<a1>'')) \<rparr>
         else Inr \<lparr> hdr_subject = None, hdr_date = None, hdr_message_id = None \<rparr>),
       message_from_string = (\<lambda>raw. Inl TypeError),
       decode_header_text = (\<lambda>v. case v of Text s \<Rightarrow> Inr s | HeaderObject \<Rightarrow> Inr []),
       parsedate_tz = (\<lambda>v. Inr (Some 1704103200)),
       format_local = (\<lambda>t. Inr (py_str ''2024-01-01 10:00:00'')),
       pattern_uid_match = (\<lambda>s. if s = py_str ''1 (UID 7)'' then Some (py_str ''7'') else None),
       abspath = (\<lambda>p. p),
       pathconf_name_max = (\<lambda>d. Inr 255),
       makedirs_error = (\<lambda>d. None),
       open_error = (\<lambda>p. None),
       write_error = (\<lambda>p b. None),
       recursion_room = 3 \<rparr>"

definition example_args :: args where
  "example_args =
     \<lparr> local_folder = py_str ''/out'', delete_remote = None, trash_folder = py_str ''Trash'' \<rparr>"

definition example_world :: "nat world" where
  "example_world =
     \<lparr> session = 0, dirs = {py_str ''/out''}, files = Map.empty, trace = [] \<rparr>"

text \<open>A message with a date and an identifier but no \<open>Subject\<close> header.\<close>

definition example_no_subject :: message where
  "example_no_subject =
     \<lparr> hdr_subject = None,
       hdr_date = Some (Text (py_str ''Mon, 01 Jan 2024 10:00:00 +0000'')),
       hdr_message_id = Some (Text (py_str ''<a1>'')) \<rparr>"

text \<open>The library of the example, when every message parses to that one.\<close>

definition no_subject_libs :: "nat libs" where
  "no_subject_libs = example_libs\<lparr>message_from_bytes := (\<lambda>raw. Inr example_no_subject)\<rparr>"

section \<open>Properties\<close>

subsection \<open>UTF-8 encoding and decoding\<close>

lemma utf8_decode_sound:
  "utf8_decode bs = Some s \<Longrightarrow> list_all is_scalar s \<and> concat (map utf8_char s) = bs"
proof (induction bs arbitrary: s rule: utf8_decode.induct)
  case 1
  then show ?case by simp
next
  case (2 b bs)
  define n where "n = utf8_seq_len b"
  define chunk where "chunk = take n (b # bs)"
  define cp where "cp = utf8_assemble chunk"
  from "2.prems" have ok: "n \<noteq> 0" "is_scalar cp" "utf8_char cp = chunk"
    and rest: "map_option ((#) cp) (utf8_decode (drop n (b # bs))) = Some s"
    by (auto simp: Let_def n_def chunk_def cp_def split: if_splits)
  from rest obtain s' where s': "utf8_decode (drop n (b # bs)) = Some s'" "s = cp # s'"
    by auto
  have "\<not> (n = 0 \<or> length chunk < n \<or> \<not> is_scalar cp \<or> utf8_char cp \<noteq> chunk)"
    using "2.prems" by (auto simp: Let_def n_def chunk_def cp_def split: if_splits)
  from "2.IH"[OF n_def chunk_def cp_def this s'(1)]
  have ih: "list_all is_scalar s'" "concat (map utf8_char s') = drop n (b # bs)" by auto
  have "concat (map utf8_char s) = chunk @ drop n (b # bs)"
    using s'(2) ok(3) ih(2) by simp
  then have "concat (map utf8_char s) = b # bs"
    unfolding chunk_def by (simp only: append_take_drop_id)
  with ih(1) ok(2) s'(2) show ?case by simp
qed

lemma utf8_char_length: "length (utf8_char cp) = (if cp < 0x80 then 1 else if cp < 0x800 then 2 else if cp < 0x10000 then 3 else 4)"
  by (simp add: utf8_char_def)

lemma utf8_char_nonempty: "utf8_char cp \<noteq> []"
  by (simp add: utf8_char_def)

lemma utf8_char_lead:
  assumes "cp < 0x110000"
  shows "utf8_seq_len (hd (utf8_char cp)) = length (utf8_char cp)"
  using assms by (auto simp: utf8_char_def utf8_seq_len_def)

lemma split3: "(cp::nat) div 4096 * 4096 + cp div 64 mod 64 * 64 + cp mod 64 = cp"
proof -
  define q where "q = cp div 64"
  have a: "cp div 4096 = q div 64" by (simp add: q_def div_mult2_eq)
  have b: "q div 64 * 64 + q mod 64 = q" by simp
  have c: "q * 64 + cp mod 64 = cp" unfolding q_def by simp
  have d: "x * 4096 + y * 64 = (x * 64 + y) * 64" for x y :: nat by simp
  have "q div 64 * 4096 + q mod 64 * 64 = (q div 64 * 64 + q mod 64) * 64"
    by (rule d)
  also have "\<dots> = q * 64" by (simp only: b)
  finally have "q div 64 * 4096 + q mod 64 * 64 + cp mod 64 = cp" using c by simp
  then show ?thesis by (simp only: a q_def)
qed

lemma split4: "(cp::nat) div 262144 * 262144 + cp div 4096 mod 64 * 4096 +
     cp div 64 mod 64 * 64 + cp mod 64 = cp"
proof -
  define q where "q = cp div 4096"
  have a: "cp div 262144 = q div 64" by (simp add: q_def div_mult2_eq)
  have b: "q div 64 * 64 + q mod 64 = q" by simp
  have d: "x * 262144 + y * 4096 = (x * 64 + y) * 4096" for x y :: nat by simp
  have "q div 64 * 262144 + q mod 64 * 4096 = (q div 64 * 64 + q mod 64) * 4096"
    by (rule d)
  also have "\<dots> = q * 4096" by (simp only: b)
  finally have "cp div 262144 * 262144 + cp div 4096 mod 64 * 4096 = cp div 4096 * 4096"
    by (simp only: a q_def)
  then show ?thesis using split3[of cp] by simp
qed

lemma utf8_char_assemble:
  "utf8_assemble (utf8_char cp) = cp"
  by (auto simp: utf8_char_def split3 split4)

lemma utf8_decode_char:
  assumes "is_scalar cp"
  shows "utf8_decode (utf8_char cp @ rest) = map_option ((#) cp) (utf8_decode rest)"
proof -
  obtain b bs where c: "utf8_char cp = b # bs"
    using utf8_char_nonempty by (cases "utf8_char cp") auto
  have lt: "cp < 0x110000" using assms by (auto simp: is_scalar_def)
  have n: "utf8_seq_len b = length (utf8_char cp)"
    using utf8_char_lead[OF lt] c by simp
  have tk: "take (length (utf8_char cp)) (b # bs @ rest) = utf8_char cp"
    using c by simp
  have dr: "drop (length (utf8_char cp)) (b # bs @ rest) = rest"
    using c by simp
  have "utf8_decode (b # (bs @ rest)) = map_option ((#) cp) (utf8_decode rest)"
    apply (subst utf8_decode.simps)
    apply (simp only: n tk dr Let_def utf8_char_assemble)
    using assms utf8_char_nonempty by simp
  then show ?thesis using c by simp
qed

lemma utf8_decode_encode:
  "list_all is_scalar s \<Longrightarrow> utf8_decode (concat (map utf8_char s)) = Some s"
  by (induction s) (simp_all add: utf8_decode_char)

lemma trim_loop_prefix:
  "\<exists>k \<le> length bs. utf8_decode (take k bs) = Some (trim_loop bs)"
proof (induction bs rule: trim_loop.induct)
  case (1 bs)
  show ?case
  proof (cases "utf8_decode bs")
    case (Some s)
    then have "utf8_decode (take (length bs) bs) = Some (trim_loop bs)"
      by (simp add: trim_loop.simps)
    then show ?thesis by blast
  next
    case None
    then have ne: "bs \<noteq> []" by auto
    from "1.IH"[OF None] obtain k where k: "k \<le> length (butlast bs)"
      "utf8_decode (take k (butlast bs)) = Some (trim_loop (butlast bs))" by blast
    have "take k (butlast bs) = take k bs"
      using k(1) by (simp add: butlast_conv_take)
    moreover have "trim_loop bs = trim_loop (butlast bs)"
      using None by (subst trim_loop.simps) simp
    ultimately have "utf8_decode (take k bs) = Some (trim_loop bs)" using k(2) by simp
    moreover have "k \<le> length bs" using k(1) by simp
    ultimately show ?thesis by blast
  qed
qed

subsection \<open>The name-fitting operation\<close>

lemma trim_loop_encodes:
  "\<exists>bs'. length bs' \<le> length bs \<and> utf8_decode bs' = Some (trim_loop bs)
          \<and> utf8_encode (trim_loop bs) = Inr bs'"
proof -
  from trim_loop_prefix[of bs] obtain k where
    k: "k \<le> length bs" "utf8_decode (take k bs) = Some (trim_loop bs)" by blast
  from utf8_decode_sound[OF k(2)]
  have "utf8_encode (trim_loop bs) = Inr (take k bs)" by (simp add: utf8_encode_def)
  moreover have "length (take k bs) \<le> length bs" by simp
  ultimately show ?thesis using k(2) by blast
qed

lemma py_slice_to_length:
  "0 \<le> n \<Longrightarrow> int (length (py_slice_to xs n)) \<le> n"
  by (simp add: py_slice_to_def)

lemma utf8_encode_decode:
  "utf8_encode s = Inr bs \<Longrightarrow> utf8_decode bs = Some s"
  by (auto simp: utf8_encode_def utf8_decode_encode split: if_splits)

text \<open>
  C4 (as stated, refuted): with a directory limit of 3 bytes and the extension
  \<open>eml\<close> the budget is \<open>3 - 3 - 1 = -1\<close>; the slice \<open>filename_bytes[:-1]\<close> then
  drops only the last byte, and the name \<open>ab\<close> comes back as \<open>a\<close>, one byte long,
  which is more than the budget.
\<close>

theorem trim_file_name_bound_counterexample:
  "trim_file_name (\<lambda>d. Inr 3) (py_str ''ab'') (py_str ''eml'') (py_str ''out'')
     = Inr (py_str ''a'')
   \<and> utf8_encode (py_str ''a'') = Inr [97]
   \<and> \<not> int (length [97::nat]) \<le> 3 - int (length (py_str ''eml'')) - 1"
  by (simp add: trim_file_name_def py_str_def utf8_encode_def utf8_char_def is_scalar_def
      py_slice_to_def utf8_seq_len_def trim_loop.simps)

text \<open>
  C4 (amended): for every name and extension that can be encoded and every directory
  limit \<open>maxb\<close>, the name returned decodes as valid text (its UTF-8 encoding decodes
  back to it), also when the cut falls inside a multi-byte character; and whenever the
  limit leaves a non-negative budget, that is \<open>maxb \<ge> byteLength(ext) + 1\<close>, the
  encoding of the name returned has at most \<open>maxb - byteLength(ext) - 1\<close> bytes.
\<close>

theorem trim_file_name_bound:
  assumes "pathconf dir = Inr maxb"
    and "utf8_encode ext = Inr eb"
    and "utf8_encode name = Inr nb"
  shows "\<exists>r bs. trim_file_name pathconf name ext dir = Inr r
           \<and> utf8_encode r = Inr bs
           \<and> utf8_decode bs = Some r
           \<and> (int (length eb) + 1 \<le> maxb
                \<longrightarrow> int (length bs) \<le> maxb - int (length eb) - 1)"
proof (cases "int (length nb) > maxb - int (length eb) - 1")
  case False
  then have "trim_file_name pathconf name ext dir = Inr name"
    using assms by (simp add: trim_file_name_def)
  moreover have "utf8_decode nb = Some name"
    using assms(3) by (rule utf8_encode_decode)
  ultimately show ?thesis using assms(3) False by auto
next
  case True
  define m where "m = maxb - int (length eb) - 1"
  define cut where "cut = py_slice_to nb m"
  have r: "trim_file_name pathconf name ext dir = Inr (trim_loop cut)"
    using assms True by (simp add: trim_file_name_def m_def cut_def Let_def)
  from trim_loop_encodes[of cut] obtain bs' where
    bs': "length bs' \<le> length cut" "utf8_decode bs' = Some (trim_loop cut)"
      "utf8_encode (trim_loop cut) = Inr bs'" by blast
  have "int (length eb) + 1 \<le> maxb \<longrightarrow> int (length bs') \<le> maxb - int (length eb) - 1"
  proof
    assume "int (length eb) + 1 \<le> maxb"
    then have "0 \<le> m" by (simp add: m_def)
    then have "int (length cut) \<le> m" unfolding cut_def by (rule py_slice_to_length)
    with bs'(1) show "int (length bs') \<le> maxb - int (length eb) - 1" by (simp add: m_def)
  qed
  with r bs' show ?thesis by blast
qed

theorem trim_file_name_bound_witness:
  "\<exists>r bs. trim_file_name (\<lambda>d. Inr 6) [0x61, 0x20AC] (py_str ''eml'') (py_str ''out'') = Inr r
           \<and> utf8_encode r = Inr bs
           \<and> utf8_decode bs = Some r
           \<and> int (length bs) \<le> 6 - int (length [0x65, 0x6D, 0x6C :: nat]) - 1"
proof -
  have 1: "(\<lambda>d::ustr. Inr 6 :: error + int) (py_str ''out'') = Inr 6" by simp
  have 2: "utf8_encode (py_str ''eml'') = Inr [0x65, 0x6D, 0x6C]"
    by (simp add: py_str_def utf8_encode_def utf8_char_def is_scalar_def)
  have 3: "int (length [0x65, 0x6D, 0x6C :: nat]) + 1 \<le> 6" by simp
  have 4: "utf8_encode [0x61, 0x20AC] = Inr [0x61, 0xE2, 0x82, 0xAC]"
    by (simp add: utf8_encode_def utf8_char_def is_scalar_def)
  from trim_file_name_bound[OF 1 2 4] obtain r bs where
    a: "trim_file_name (\<lambda>d. Inr 6) [0x61, 0x20AC] (py_str ''eml'') (py_str ''out'') = Inr r"
    and b: "utf8_encode r = Inr bs" and c: "utf8_decode bs = Some r"
    and d: "int (length [0x65, 0x6D, 0x6C :: nat]) + 1 \<le> 6
            \<longrightarrow> int (length bs) \<le> 6 - int (length [0x65, 0x6D, 0x6C :: nat]) - 1"
    by blast
  from d 3 have e: "int (length bs) \<le> 6 - int (length [0x65, 0x6D, 0x6C :: nat]) - 1"
    by (rule mp)
  show ?thesis by (intro exI[of _ r] exI[of _ bs] conjI a b c e)
qed

text \<open>
  C9: on a name whose encoding fits the budget the operation returns the name itself,
  so applying it to its own result returns the name again.
\<close>

theorem trim_file_name_fitting_identity:
  assumes "pathconf dir = Inr maxb"
    and "utf8_encode ext = Inr eb"
    and "utf8_encode name = Inr nb"
    and "int (length nb) \<le> maxb - int (length eb) - 1"
  shows "trim_file_name pathconf name ext dir = Inr name
         \<and> (\<exists>once. trim_file_name pathconf name ext dir = Inr once
                \<and> trim_file_name pathconf once ext dir = Inr name)"
  using assms by (simp add: trim_file_name_def)

theorem trim_file_name_fitting_identity_witness:
  "trim_file_name (\<lambda>d. Inr 255) (py_str ''Unknown Date1 - No subject'') (py_str ''eml'')
      (py_str ''out'') = Inr (py_str ''Unknown Date1 - No subject'')
   \<and> (\<exists>once. trim_file_name (\<lambda>d. Inr 255) (py_str ''Unknown Date1 - No subject'')
                 (py_str ''eml'') (py_str ''out'') = Inr once
        \<and> trim_file_name (\<lambda>d. Inr 255) once (py_str ''eml'') (py_str ''out'')
            = Inr (py_str ''Unknown Date1 - No subject''))"
proof -
  have 1: "(\<lambda>d::ustr. Inr 255 :: error + int) (py_str ''out'') = Inr 255" by simp
  have 2: "utf8_encode (py_str ''eml'') = Inr [0x65, 0x6D, 0x6C]"
    by (simp add: py_str_def utf8_encode_def utf8_char_def is_scalar_def)
  have 3: "utf8_encode (py_str ''Unknown Date1 - No subject'')
             = Inr (py_str ''Unknown Date1 - No subject'')"
    by (simp add: py_str_def utf8_encode_def utf8_char_def is_scalar_def)
  have 4: "int (length (py_str ''Unknown Date1 - No subject''))
             \<le> 255 - int (length [0x65, 0x6D, 0x6C :: nat]) - 1"
    by (simp add: py_str_def)
  show ?thesis using trim_file_name_fitting_identity[OF 1 2 3 4] .
qed

subsection \<open>The log and its readers\<close>

lemma log_simps [simp]:
  "trace (log ev w) = trace w @ [ev]" "dirs (log ev w) = dirs w"
  "files (log ev w) = files w" "session (log ev w) = session w"
  by (simp_all add: log_def)

lemma attempts_append [simp]: "attempts (xs @ ys) = attempts xs + attempts ys"
  by (induction xs rule: attempts.induct) simp_all

lemma written_append [simp]: "written (xs @ ys) = written xs @ written ys"
  by (induction xs rule: written.induct) simp_all

lemma local_checks_append [simp]: "local_checks (xs @ ys) = local_checks xs @ local_checks ys"
  by (induction xs rule: local_checks.induct) simp_all

lemma delete_events_silent:
  "list_all is_delete_event tr \<Longrightarrow>
     written tr = [] \<and> local_checks tr = []"
proof (induction tr)
  case Nil
  then show ?case by simp
next
  case (Cons ev tr)
  then show ?case by (cases ev) simp_all
qed

subsection \<open>The delete sequence\<close>

lemmas ex_defs = retry_mail_def example_mail_def empty_mail_def example_libs_def
  example_args_def example_world_def

lemmas export_defs = export_message_def fetch_message_def parse_message_def compose_name_def
  extract_metadata_def decode_subject_def parse_date_def fallback_subject_def fallback_date_def
  resolve_message_id_def compose_file_def sanitize_subject_def sanitize_message_id_def
  py_strip_def py_isspace_def path_join_def FILENAME_EXT_def ensure_dir_def write_file_def
  trim_file_name_def final_dir_of_def target_of_def

lemmas attempt_defs = delete_attempt_def fetch_uid_def call_uid_copy_def call_uid_store_def
  call_expunge_def decode_data_def parse_uid_def

lemmas utf8_eval = Let_def utf8_seq_len_def is_scalar_def utf8_char_def utf8_encode_def

lemma delete_attempt_shape:
  assumes "delete_attempt a lib mail num w = (r, w')"
  shows "trace w' = trace w @ [EvFetchUid num]
       \<or> (\<exists>u st. st \<noteq> Inr ''OK''
             \<and> trace w' = trace w @ [EvFetchUid num, EvUidCopy u (trash_folder a) st])
       \<or> (\<exists>u. trace w' = trace w @ [EvFetchUid num, EvUidCopy u (trash_folder a) (Inr ''OK''),
                                     EvUidStore u])
       \<or> (\<exists>u. trace w' = trace w @ [EvFetchUid num, EvUidCopy u (trash_folder a) (Inr ''OK''),
                                     EvUidStore u, EvExpunge])"
  using assms
  by (auto simp: delete_attempt_def fetch_uid_def call_uid_copy_def call_uid_store_def
      call_expunge_def split: prod.splits sum.splits if_splits)

lemma delete_attempt_frame:
  assumes "delete_attempt a lib mail num w = (r, w')"
  shows "dirs w' = dirs w \<and> files w' = files w"
  using assms
  by (auto simp: delete_attempt_def fetch_uid_def call_uid_copy_def call_uid_store_def
      call_expunge_def split: prod.splits sum.splits if_splits)

lemma delete_attempt_events:
  assumes "delete_attempt a lib mail num w = (r, w')"
  shows "\<exists>tr. trace w' = trace w @ tr \<and> list_all is_delete_event tr"
  using delete_attempt_shape[OF assms] by auto


lemma delete_result:
  "delete depth a lib mail num w = (r, w') \<Longrightarrow>
     (\<exists>tr. trace w' = trace w @ tr \<and> list_all is_delete_event tr)
     \<and> dirs w' = dirs w \<and> files w' = files w
     \<and> (\<forall>e. r = Inl e \<longrightarrow> e = RecursionError)"
proof (induction depth arbitrary: w)
  case 0
  then have "w' = w" "r = Inl RecursionError" by simp_all
  then show ?case by simp
next
  case (Suc depth)
  obtain r1 w1 where att: "delete_attempt a lib mail num w = (r1, w1)"
    by (cases "delete_attempt a lib mail num w") auto
  from delete_attempt_events[OF att] obtain tr1 where
    tr1: "trace w1 = trace w @ tr1" "list_all is_delete_event tr1" by blast
  from delete_attempt_frame[OF att] have fr: "dirs w1 = dirs w" "files w1 = files w" by auto
  show ?case
  proof (cases r1)
    case (Inl e)
    with att Suc.prems have "delete depth a lib mail num w1 = (r, w')" by simp
    from Suc.IH[OF this] obtain tr2 where
      ih: "trace w' = trace w1 @ tr2" "list_all is_delete_event tr2"
        "dirs w' = dirs w1" "files w' = files w1" "\<forall>e. r = Inl e \<longrightarrow> e = RecursionError"
      by blast
    have "trace w' = trace w @ (tr1 @ tr2)" using ih(1) tr1(1) by simp
    moreover have "list_all is_delete_event (tr1 @ tr2)" using tr1(2) ih(2) by simp
    ultimately have "\<exists>tr. trace w' = trace w @ tr \<and> list_all is_delete_event tr" by blast
    with ih(3,4,5) fr show ?thesis by simp
  next
    case (Inr u)
    with att Suc.prems have "r = Inr u" "w' = w1" by simp_all
    then show ?thesis using tr1 fr by auto
  qed
qed


text \<open>
  C8: in one attempt of the delete sequence, started in any world, a \<open>STORE\<close> of the
  deletion flag or an \<open>expunge\<close> is issued only if the \<open>COPY\<close> into the trash folder
  of that attempt returned the status \<open>OK\<close>; when the copy returned any other status
  (or raised), the attempt issues neither.
\<close>

theorem delete_attempt_copy_gate:
  assumes "delete_attempt a lib mail num w = (r, w')"
  shows "\<exists>tr. trace w' = trace w @ tr
           \<and> ((\<exists>u. EvUidStore u \<in> set tr) \<or> EvExpunge \<in> set tr
                \<longrightarrow> (\<exists>u. EvUidCopy u (trash_folder a) (Inr ''OK'') \<in> set tr))
           \<and> (\<forall>u target st. EvUidCopy u target st \<in> set tr \<and> st \<noteq> Inr ''OK''
                \<longrightarrow> (\<forall>v. EvUidStore v \<notin> set tr) \<and> EvExpunge \<notin> set tr)"
  using delete_attempt_shape[OF assms] by auto

theorem delete_attempt_copy_gate_witness:
  "delete_attempt example_args example_libs retry_mail (py_str ''1'')
      (example_world\<lparr>session := 2\<rparr>)
     = (Inr (), example_world\<lparr>session := 6,
          trace := [EvFetchUid (py_str ''1''),
                    EvUidCopy (py_str ''7'') (py_str ''Trash'') (Inr ''OK''),
                    EvUidStore (py_str ''7''), EvExpunge]\<rparr>)
   \<and> (\<exists>u. EvUidCopy u (trash_folder example_args) (Inr ''OK'')
          \<in> set [EvFetchUid (py_str ''1''),
                    EvUidCopy (py_str ''7'') (py_str ''Trash'') (Inr ''OK''),
                    EvUidStore (py_str ''7''), EvExpunge])"
proof -
  have ev: "delete_attempt example_args example_libs retry_mail (py_str ''1'')
      (example_world\<lparr>session := 2\<rparr>)
     = (Inr (), example_world\<lparr>session := 6,
          trace := [EvFetchUid (py_str ''1''),
                    EvUidCopy (py_str ''7'') (py_str ''Trash'') (Inr ''OK''),
                    EvUidStore (py_str ''7''), EvExpunge]\<rparr>)"
    by (simp add: attempt_defs retry_mail_def example_libs_def example_args_def
        example_world_def log_def py_str_def Let_def utf8_seq_len_def is_scalar_def
        utf8_char_def)
  from delete_attempt_copy_gate[OF ev] obtain tr where
    tr: "trace (example_world\<lparr>session := 6,
          trace := [EvFetchUid (py_str ''1''),
                    EvUidCopy (py_str ''7'') (py_str ''Trash'') (Inr ''OK''),
                    EvUidStore (py_str ''7''), EvExpunge]\<rparr>)
          = trace (example_world\<lparr>session := 2\<rparr>) @ tr"
    and gate: "(\<exists>u. EvUidStore u \<in> set tr) \<or> EvExpunge \<in> set tr
                \<longrightarrow> (\<exists>u. EvUidCopy u (trash_folder example_args) (Inr ''OK'') \<in> set tr)"
    by blast
  from tr have "tr = [EvFetchUid (py_str ''1''),
                    EvUidCopy (py_str ''7'') (py_str ''Trash'') (Inr ''OK''),
                    EvUidStore (py_str ''7''), EvExpunge]"
    by (simp add: example_world_def)
  with gate have "\<exists>u. EvUidCopy u (trash_folder example_args) (Inr ''OK'')
          \<in> set [EvFetchUid (py_str ''1''),
                    EvUidCopy (py_str ''7'') (py_str ''Trash'') (Inr ''OK''),
                    EvUidStore (py_str ''7''), EvExpunge]"
    by simp
  with ev show ?thesis by blast
qed




subsection \<open>One message: the body of the loop\<close>

lemma fetch_message_effect:
  assumes "fetch_message mail num w = (resp, w1)"
  shows "trace w1 = trace w @ [EvFetch num resp] \<and> dirs w1 = dirs w \<and> files w1 = files w"
  using assms by (auto simp: fetch_message_def split: prod.splits)

lemma ensure_dir_effect:
  assumes "ensure_dir lib d w = (r, w')"
  shows "written (trace w') = written (trace w)
       \<and> local_checks (trace w') = local_checks (trace w)
       \<and> files w' = files w"
  using assms by (auto simp: ensure_dir_def split: if_splits option.splits)


lemma write_file_effect:
  assumes "write_file lib target raw w = (r, w')"
  shows "local_checks (trace w') = local_checks (trace w)
       \<and> ((isl r \<and> written (trace w') = written (trace w) \<and> files w' = files w)
          \<or> (written (trace w') = written (trace w) @ [(target, raw)]
              \<and> (\<exists>n. files w' = (files w)(target \<mapsto> take n raw))
              \<and> (\<forall>u. r = Inr u \<longrightarrow> files w' = (files w)(target \<mapsto> raw))))"
proof (cases "open_error lib target")
  case (Some e)
  with assms show ?thesis by (auto simp: write_file_def)
next
  case None
  show ?thesis
  proof (cases "write_error lib target raw")
    case (Some en)
    obtain e n where "en = (e, n)" by (cases en) auto
    with Some None assms have "r = Inl e" "trace w' = trace w @ [EvOpen target, EvWrite target raw]"
      "files w' = (files w)(target \<mapsto> take n raw)"
      by (auto simp: write_file_def Let_def)
    then show ?thesis by auto
  next
    case nowr: None
    with None assms have "r = Inr ()" "trace w' = trace w @ [EvOpen target, EvWrite target raw]"
      "files w' = (files w)(target \<mapsto> raw)"
      by (auto simp: write_file_def Let_def)
    moreover have "(files w)(target \<mapsto> raw) = (files w)(target \<mapsto> take (length raw) raw)"
      by simp
    ultimately show ?thesis by (metis local_checks.simps local_checks_append written.simps
        written_append append_Nil2 self_append_conv)
  qed
qed



lemma export_message_written:
  assumes "export_message a lib mail folder num c w = (r, w')"
    and "fetch_message mail num w = (resp, w1)"
  shows "(isl r \<and> written (trace w') = written (trace w) \<and> files w' = files w)
       \<or> (\<exists>raw target n. resp = Inr (''OK'', Some raw)
             \<and> written (trace w') = written (trace w) @ [(target, raw)]
             \<and> files w' = (files w)(target \<mapsto> take n raw)
             \<and> (\<forall>c'. r = Inr c' \<longrightarrow> files w' = (files w)(target \<mapsto> raw)))"
proof -
  note fe = fetch_message_effect[OF assms(2)]
  have base: "written (trace w1) = written (trace w)" "files w1 = files w" using fe by simp_all
  consider (early) e where "r = Inl e" "w' = w1"
    | (dir) raw e d w2 where "resp = Inr (''OK'', Some raw)" "r = Inl e" "w' = w2"
        "ensure_dir lib d w1 = (Inl e, w2)"
    | (trim) raw e d w2 where "resp = Inr (''OK'', Some raw)" "r = Inl e" "w' = w2"
        "ensure_dir lib d w1 = (Inr (), w2)"
    | (wr) raw d w2 target rw where "resp = Inr (''OK'', Some raw)"
        "ensure_dir lib d w1 = (Inr (), w2)" "write_file lib target raw w2 = (rw, w')"
        "isl rw = isl r"
    using assms unfolding export_message_def Let_def
    by (auto split: prod.splits sum.splits option.splits if_splits)
  then show ?thesis
  proof cases
    case early
    with base show ?thesis by simp
  next
    case dir
    with base ensure_dir_effect[OF dir(4)] show ?thesis by simp
  next
    case trim
    with base ensure_dir_effect[OF trim(4)] show ?thesis by simp
  next
    case wr
    note de = ensure_dir_effect[OF wr(2)]
    from write_file_effect[OF wr(3)] show ?thesis
    proof (elim conjE disjE exE)
      assume "isl rw" "written (trace w') = written (trace w2)" "files w' = files w2"
      with wr(4) de base show ?thesis by simp
    next
      fix n
      assume a: "written (trace w') = written (trace w2) @ [(target, raw)]"
        "files w' = (files w2)(target \<mapsto> take n raw)"
        "\<forall>u. rw = Inr u \<longrightarrow> files w' = (files w2)(target \<mapsto> raw)"
      have "\<forall>c'. r = Inr c' \<longrightarrow> files w' = (files w)(target \<mapsto> raw)"
      proof (intro allI impI)
        fix c' assume "r = Inr c'"
        with wr(4) have "\<not> isl rw" by simp
        then obtain u where "rw = Inr u" by (cases rw) auto
        with a(3) de base show "files w' = (files w)(target \<mapsto> raw)" by simp
      qed
      with a(1,2) de base wr(1) show ?thesis by auto
    qed
  qed
qed



subsection \<open>The loop over the messages of a folder\<close>

lemma process_message_decomp:
  assumes "process_message a lib mail folder num c w = (r, w')"
  obtains re we tr where "export_message a lib mail folder num c w = (re, we)"
    "trace w' = trace we @ tr" "list_all is_delete_event tr"
    "files w' = files we" "dirs w' = dirs we"
    "r = re \<or> (\<not> isl re \<and> r = Inl RecursionError)"
proof -
  obtain re we where ex: "export_message a lib mail folder num c w = (re, we)"
    by (cases "export_message a lib mail folder num c w") auto
  show thesis
  proof (cases re)
    case (Inl e)
    with ex assms have "r = re" "w' = we" by (auto simp: process_message_def)
    with ex show thesis using that[of re we "[]"] by simp
  next
    case (Inr c')
    show thesis
    proof (cases "delete_remote a = None")
      case True
      with Inr ex assms have "r = re" "w' = we" by (auto simp: process_message_def)
      with ex show thesis using that[of re we "[]"] by simp
    next
      case False
      obtain rd wd where d: "delete (recursion_room lib) a lib mail num we = (rd, wd)"
        by (cases "delete (recursion_room lib) a lib mail num we") auto
      from delete_result[OF d] obtain tr where
        y: "trace wd = trace we @ tr" "list_all is_delete_event tr"
          "dirs wd = dirs we" "files wd = files we" "\<forall>e. rd = Inl e \<longrightarrow> e = RecursionError"
        by blast
      from False Inr ex assms d have w': "w' = wd"
        by (auto simp: process_message_def split: sum.splits)
      have "r = re \<or> (\<not> isl re \<and> r = Inl RecursionError)"
      proof (cases rd)
        case (Inl e)
        with y(5) have "e = RecursionError" by simp
        with Inl False Inr ex assms d show ?thesis by (auto simp: process_message_def)
      next
        case rdr: (Inr u)
        with False Inr ex assms d show ?thesis by (auto simp: process_message_def)
      qed
      with ex y w' show thesis using that[of re we tr] by simp
    qed
  qed
qed


lemma process_message_written:
  assumes "process_message a lib mail folder num c w = (r, w')"
    and "fetch_message mail num w = (resp, w1)"
  shows "(isl r \<and> written (trace w') = written (trace w) \<and> files w' = files w)
       \<or> (\<exists>raw target n. resp = Inr (''OK'', Some raw)
             \<and> written (trace w') = written (trace w) @ [(target, raw)]
             \<and> files w' = (files w)(target \<mapsto> take n raw)
             \<and> (\<forall>c'. r = Inr c' \<longrightarrow> files w' = (files w)(target \<mapsto> raw)))"
proof -
  from assms(1) obtain re we tr where d: "export_message a lib mail folder num c w = (re, we)"
    "trace w' = trace we @ tr" "list_all is_delete_event tr" "files w' = files we"
    and rr: "r = re \<or> (\<not> isl re \<and> r = Inl RecursionError)"
    by (rule process_message_decomp)
  have same: "written (trace w') = written (trace we)" "files w' = files we"
    using delete_events_silent[OF d(3)] d(2,4) by simp_all
  from export_message_written[OF d(1) assms(2)] show ?thesis
  proof (elim disjE exE conjE)
    assume "isl re" "written (trace we) = written (trace w)" "files we = files w"
    with rr same show ?thesis by auto
  next
    fix raw target n
    assume a: "resp = Inr (''OK'', Some raw)"
      "written (trace we) = written (trace w) @ [(target, raw)]"
      "files we = (files w)(target \<mapsto> take n raw)"
      "\<forall>c'. re = Inr c' \<longrightarrow> files we = (files w)(target \<mapsto> raw)"
    have "\<forall>c'. r = Inr c' \<longrightarrow> files w' = (files w)(target \<mapsto> raw)"
      using rr a(4) same by auto
    with a(1,2,3) same show ?thesis by auto
  qed
qed


lemma process_loop_written_count:
  "process_loop a lib mail folder nums c w = (Inr c', w')
     \<Longrightarrow> length (written (trace w')) = length (written (trace w)) + length nums"
proof (induction nums arbitrary: c w)
  case Nil
  then show ?case by simp
next
  case (Cons num nums)
  obtain r1 w1 where m: "process_message a lib mail folder num c w = (r1, w1)"
    by (cases "process_message a lib mail folder num c w") auto
  with Cons.prems obtain c1 where r1: "r1 = Inr c1"
    and rest: "process_loop a lib mail folder nums c1 w1 = (Inr c', w')"
    by (cases r1) auto
  obtain resp wf where f: "fetch_message mail num w = (resp, wf)"
    by (cases "fetch_message mail num w") auto
  from process_message_written[OF m f] r1
  have "length (written (trace w1)) = Suc (length (written (trace w)))" by auto
  with Cons.IH[OF rest] show ?case by simp
qed

subsection \<open>A whole folder\<close>

lemma call_search_effect:
  assumes "call_search mail w = (res, w1)"
  shows "trace w1 = trace w @ [EvSearch] \<and> dirs w1 = dirs w \<and> files w1 = files w"
  using assms by (auto simp: call_search_def split: prod.splits)

lemma example_run:
  "(case process example_args example_libs example_mail (py_str ''INBOX'') example_world of
      (r, w) \<Rightarrow> (r, written (trace w)))
   = (Inr PyNone,
      [(py_str ''/out/INBOX/2024-01-01 10:00:00 - a1 - Test.eml'', [0x4D, 0x31]),
       (py_str ''/out/INBOX/Unknown Date1 - No subject.eml'', [0x4D, 0x32])])"
  by (simp add: process_def call_search_def process_message_def export_defs ex_defs log_def
      py_str_def bytes_split_def is_ascii_space_def utf8_eval Let_def str_of_nat.simps)

lemma example_run_returns:
  "\<exists>w'. process example_args example_libs example_mail (py_str ''INBOX'') example_world
          = (Inr PyNone, w')"
  using example_run by (auto split: prod.splits)






text \<open>
  C2 (as stated, refuted): on the folder of the example the search finds two messages and
  \<open>process\<close> runs to completion, yet it returns \<open>None\<close>, not the count \<open>2\<close>.
\<close>

theorem process_returns_count_counterexample:
  "fst (mail_search example_mail (session example_world)) = Inr (''OK'', py_str ''1 2'')
   \<and> length (bytes_split (py_str ''1 2'')) = 2
   \<and> fst (process example_args example_libs example_mail (py_str ''INBOX'') example_world)
       = Inr PyNone
   \<and> PyNone \<noteq> PyInt 2"
proof -
  have "fst (process example_args example_libs example_mail (py_str ''INBOX'') example_world)
       = Inr PyNone"
    using example_run_returns by auto
  moreover have "length (bytes_split (py_str ''1 2'')) = 2"
    by (simp add: bytes_split_def py_str_def is_ascii_space_def)
  moreover have "fst (mail_search example_mail (session example_world))
       = Inr (''OK'', py_str ''1 2'')"
    by (simp add: ex_defs)
  ultimately show ?thesis by simp
qed

text \<open>
  C2 (amended): on every folder on which it runs to completion, \<open>process\<close> returns no
  value (\<open>None\<close>), and the number of export files it has written is the count of the
  message tokens the search found.
\<close>

theorem process_returns_none_and_writes_each:
  assumes "process a lib mail folder w = (Inr v, w')"
    and "call_search mail w = (Inr (rv, data), w1)"
  shows "v = PyNone
       \<and> length (written (trace w')) = length (written (trace w)) + length (bytes_split data)"
proof -
  note se = call_search_effect[OF assms(2)]
  define w2 where
    "w2 = log (EvLocalFolderCheck (local_folder a) (local_folder a \<in> dirs w1)) w1"
  from assms have ok: "rv = ''OK''" "local_folder a \<in> dirs w1"
    by (auto simp: process_def Let_def split: if_splits)
  with assms obtain c where
    loop: "process_loop a lib mail folder (bytes_split data) 0 w2 = (Inr c, w')"
    and v: "v = PyNone"
    by (auto simp: process_def w2_def Let_def split: prod.splits sum.splits)
  have "written (trace w2) = written (trace w)" using se by (simp add: w2_def)
  with process_loop_written_count[OF loop] v show ?thesis by simp
qed

theorem process_returns_none_and_writes_each_witness:
  "\<exists>w'. process example_args example_libs example_mail (py_str ''INBOX'') example_world
          = (Inr PyNone, w')
        \<and> length (written (trace w'))
            = length (written (trace example_world)) + length (bytes_split (py_str ''1 2''))"
proof -
  from example_run_returns obtain w' where
    run: "process example_args example_libs example_mail (py_str ''INBOX'') example_world
          = (Inr PyNone, w')" by blast
  have s: "call_search example_mail example_world
     = (Inr (''OK'', py_str ''1 2''), log EvSearch (example_world\<lparr>session := 1\<rparr>))"
    by (simp add: call_search_def ex_defs)
  from process_returns_none_and_writes_each[OF run s] run show ?thesis by blast
qed

text \<open>
  C6 (the code at the failing input): the only message of the folder has the identifier
  \<open><a1>\<close> and a date, but no \<open>Subject\<close> header. Decoding the absent subject raises
  inside the one \<open>try\<close> block, the identifier is never read, and the counter goes from
  0 to 1 for a message that has a usable identifier: the file is named with \<open>1\<close>, not
  with \<open>a1\<close>.
\<close>

theorem counter_steps_despite_identifier:
  "parse_message no_subject_libs [0x4D, 0x31] = Inr example_no_subject
   \<and> hdr_message_id example_no_subject = Some (Text (py_str ''<a1>''))
   \<and> \<not> lacks_message_id (hdr_message_id example_no_subject)
   \<and> (case process_loop example_args no_subject_libs retry_mail (py_str ''INBOX'')
              [py_str ''1''] 0 example_world of
          (r, w) \<Rightarrow> (r, written (trace w)))
       = (Inr 1, [(py_str ''/out/INBOX/Unknown Date1 - No subject.eml'', [0x4D, 0x31])])"
  by (simp add: process_message_def export_defs ex_defs no_subject_libs_def
      example_no_subject_def lacks_message_id_def log_def py_str_def utf8_eval Let_def
      str_of_nat.simps)

subsection \<open>Metadata and the bytes written\<close>



text \<open>
  C3 (the code at the failing input): the message has a \<open>Date\<close> header that parses and
  formats, and a \<open>Message-ID\<close>, but no \<open>Subject\<close>. Decoding the absent subject raises
  inside the one \<open>try\<close> block, the date and the identifier are never read, and the
  composed name starts with \<open>Unknown Date\<close>.
\<close>

theorem date_lost_when_subject_absent:
  "hdr_date example_no_subject = Some (Text (py_str ''Mon, 01 Jan 2024 10:00:00 +0000''))
   \<and> parse_date example_libs example_no_subject = Inr (Some 1704103200)
   \<and> format_local example_libs 1704103200 = Inr (py_str ''2024-01-01 10:00:00'')
   \<and> decode_subject example_libs example_no_subject = Inl TypeError
   \<and> extract_metadata example_libs example_no_subject
       = (Some (py_str ''No subject''), [], Some (Text []))
   \<and> compose_name example_libs example_no_subject 0
       = Inr (1, py_str ''Unknown Date1 - No subject'')"
  by (simp add: compose_name_def extract_metadata_def decode_subject_def parse_date_def
      fallback_subject_def fallback_date_def resolve_message_id_def compose_file_def
      sanitize_subject_def sanitize_message_id_def py_strip_def py_isspace_def
      example_libs_def example_no_subject_def py_str_def str_of_nat.simps)

text \<open>
  C10: after the \<open>try\<close> block the variable \<open>subject\<close> is never \<open>None\<close>, so the branch
  that assigns \<open>No Subject\<close> is never taken: the subject that goes into the file name is
  the decoded header text when decoding succeeds and the literal \<open>No subject\<close> when it
  raises.
\<close>

theorem subject_fallback_is_no_subject:
  "fst (extract_metadata lib msg) \<noteq> None
   \<and> fallback_subject (fst (extract_metadata lib msg))
       = (case decode_subject lib msg of
            Inl e \<Rightarrow> py_str ''No subject''
          | Inr header \<Rightarrow> header)"
  by (auto simp: extract_metadata_def fallback_subject_def Let_def
      split: sum.splits option.splits)

end
